theory Spec2Isabelle
  imports
    Complex_Main
    "HOL-Library.Char_ord"
    "HOL-Library.List_Lexorder"
    "HOL-Library.Product_Lexorder"
    "HOL-Library.Multiset"
begin

section \<open>The persisted state: two SQLite tables\<close>

text \<open>
  \<^verbatim>\<open>app.py\<close> keeps its data in two SQLite tables created by \<^verbatim>\<open>ensure_db\<close>:
  \<^verbatim>\<open>products(id INTEGER PRIMARY KEY AUTOINCREMENT, name TEXT UNIQUE NOT NULL,
           price REAL NOT NULL CHECK(price >= 0))\<close> and
  \<^verbatim>\<open>sales(id INTEGER PRIMARY KEY AUTOINCREMENT, product_id INTEGER NOT NULL,
        qty INTEGER NOT NULL CHECK(qty > 0), sold_at TEXT NOT NULL,
        FOREIGN KEY(product_id) REFERENCES products(id) ON DELETE CASCADE)\<close>.
  Every connection is opened by \<^verbatim>\<open>get_conn\<close>, which switches foreign-key
  enforcement on. A table is the list of its rows in insertion order. Prices are
  Python floats stored as REAL; they are modelled by \<^typ>\<open>real\<close>, so rounding, NaN and
  infinities are outside the model. TEXT values are \<^typ>\<open>string\<close>s, compared byte by
  byte as SQLite's default BINARY collation does.
\<close>

record product =
  p_id :: int
  p_name :: string
  p_price :: real

record sale =
  s_id :: int
  s_product_id :: int
  s_qty :: int
  s_sold_at :: string

text \<open>
  \<^verbatim>\<open>AUTOINCREMENT\<close> keeps, per table, the largest rowid ever handed out (the table
  \<^verbatim>\<open>sqlite_sequence\<close>); the two counters are part of the database.
\<close>

record db =
  products :: "product list"
  sales :: "sale list"
  products_seq :: int
  sales_seq :: int

definition empty_db :: db where
  "empty_db = \<lparr>products = [], sales = [], products_seq = 0, sales_seq = 0\<rparr>"

text \<open>
  The exceptions the statements of \<^verbatim>\<open>app.py\<close> can raise. Python's \<^verbatim>\<open>sqlite3\<close>
  reports every constraint failure as \<^verbatim>\<open>sqlite3.IntegrityError\<close>; the constraint
  that failed is carried in the message and in the extended result code.
  \<^verbatim>\<open>OverflowError\<close> is what the driver raises for a Python int that does not fit
  SQLite's signed 64-bit INTEGER, before the statement runs.
\<close>

datatype constraint_kind = CHECK_failed | FOREIGN_KEY_failed

datatype error =
    IntegrityError constraint_kind
  | OverflowError
  | KeyError string
  | AttributeError string
  | ValueError string
  | TypeError string

type_synonym 'a result = "error + 'a"

definition fits_int64 :: "int \<Rightarrow> bool" where
  "fits_int64 n \<longleftrightarrow> - (2 ^ 63) \<le> n \<and> n < 2 ^ 63"

text \<open>
  The rowid an \<^verbatim>\<open>AUTOINCREMENT\<close> table gives a new row: one more than the largest
  rowid that is or ever was in the table.
\<close>

definition new_rowid :: "int list \<Rightarrow> int \<Rightarrow> int" where
  "new_rowid ids seq = max (fold max ids 0) seq + 1"

subsection \<open>\<^verbatim>\<open>str.strip\<close>\<close>

text \<open>
  \<^verbatim>\<open>name.strip()\<close> removes leading and trailing whitespace. The characters of the
  model are the 256 values of \<^typ>\<open>char\<close>; among them \<^verbatim>\<open>str.isspace\<close> holds for
  codes 9 to 13, 28 to 32, 133 and 160.
\<close>

definition isspace :: "char \<Rightarrow> bool" where
  "isspace c \<longleftrightarrow>
     (let n = (of_char c :: nat)
      in (9 \<le> n \<and> n \<le> 13) \<or> (28 \<le> n \<and> n \<le> 32) \<or> n = 133 \<or> n = 160)"

definition lstrip :: "string \<Rightarrow> string" where
  "lstrip s = dropWhile isspace s"

definition rstrip :: "string \<Rightarrow> string" where
  "rstrip s = rev (dropWhile isspace (rev s))"

definition strip :: "string \<Rightarrow> string" where
  "strip s = rstrip (lstrip s)"

subsection \<open>The SQL statements\<close>

text \<open>
  \<^verbatim>\<open>INSERT OR IGNORE INTO products(name, price) VALUES(?, ?)\<close>. The conflict clause
  \<^verbatim>\<open>OR IGNORE\<close> applies to UNIQUE, NOT NULL, CHECK and PRIMARY KEY constraints: the
  row that violates one is skipped and no error is returned. The rowid is drawn before
  the constraints are checked, so a skipped row still advances the sequence.
\<close>

definition insert_or_ignore_product :: "string \<Rightarrow> real \<Rightarrow> db \<Rightarrow> db" where
  "insert_or_ignore_product nm pr d =
     (let rid = new_rowid (map p_id (products d)) (products_seq d)
      in if \<not> (pr \<ge> 0) \<or> nm \<in> set (map p_name (products d))
         then d\<lparr>products_seq := rid\<rparr>
         else d\<lparr>products := products d @ [\<lparr>p_id = rid, p_name = nm, p_price = pr\<rparr>],
                products_seq := rid\<rparr>)"

text \<open>
  \<^verbatim>\<open>UPDATE products SET price = ? WHERE id = ?\<close>. The default conflict handling is
  ABORT: a row whose new price fails the CHECK makes the statement fail and leaves the
  table as it was. With no row of that id nothing is checked and nothing changes.
\<close>

definition update_price :: "real \<Rightarrow> int \<Rightarrow> db \<Rightarrow> unit result \<times> db" where
  "update_price pr i d =
     (if \<not> fits_int64 i then (Inl OverflowError, d)
      else if i \<in> set (map p_id (products d)) \<and> \<not> (pr \<ge> 0)
      then (Inl (IntegrityError CHECK_failed), d)
      else (Inr (),
            d\<lparr>products := map (\<lambda>p. if p_id p = i then p\<lparr>p_price := pr\<rparr> else p)
                               (products d)\<rparr>))"

text \<open>
  \<^verbatim>\<open>INSERT INTO sales(product_id, qty, sold_at) VALUES (?, ?, ?)\<close>. The CHECK on
  \<^verbatim>\<open>qty\<close> is tested when the row is built, the foreign key when the row is about to
  be written; either failure aborts the statement and nothing is stored.
\<close>

definition insert_sale :: "int \<Rightarrow> int \<Rightarrow> string \<Rightarrow> db \<Rightarrow> unit result \<times> db" where
  "insert_sale pid q txt d =
     (if \<not> fits_int64 pid \<or> \<not> fits_int64 q then (Inl OverflowError, d)
      else if \<not> (q > 0) then (Inl (IntegrityError CHECK_failed), d)
      else if pid \<notin> set (map p_id (products d))
      then (Inl (IntegrityError FOREIGN_KEY_failed), d)
      else (let rid = new_rowid (map s_id (sales d)) (sales_seq d)
            in (Inr (),
                d\<lparr>sales := sales d @
                       [\<lparr>s_id = rid, s_product_id = pid, s_qty = q, s_sold_at = txt\<rparr>],
                  sales_seq := rid\<rparr>)))"

text \<open>\<^verbatim>\<open>SELECT id, name, price FROM products ORDER BY name\<close>.\<close>

definition select_products :: "db \<Rightarrow> product list" where
  "select_products d = sort_key p_name (products d)"

text \<open>
  \<^verbatim>\<open>SELECT ... FROM sales s JOIN products p ON p.id = s.product_id
  ORDER BY s.sold_at DESC, s.id DESC\<close>: every pair of a sale and a product with the
  sale's product id, in descending order of the pair (text of \<^verbatim>\<open>sold_at\<close>, id).
\<close>

definition join_sales :: "db \<Rightarrow> (sale \<times> product) list" where
  "join_sales d =
     concat (map (\<lambda>s. map (\<lambda>p. (s, p)) (filter (\<lambda>p. p_id p = s_product_id s) (products d)))
                 (sales d))"

definition sale_key :: "sale \<times> product \<Rightarrow> string \<times> int" where
  "sale_key sp = (s_sold_at (fst sp), s_id (fst sp))"

definition select_sales :: "db \<Rightarrow> (sale \<times> product) list" where
  "select_sales d = rev (sort_key sale_key (join_sales d))"


section \<open>Timestamps\<close>

text \<open>
  A naive Python \<^verbatim>\<open>datetime\<close>, as \<^verbatim>\<open>datetime.combine(d, t)\<close> and
  \<^verbatim>\<open>datetime.now()\<close> build it: seven bounded fields, no time zone. Python compares
  two of them field by field, most significant first.
\<close>

record datetime =
  year :: nat
  month :: nat
  day :: nat
  hour :: nat
  minute :: nat
  second :: nat
  microsecond :: nat

definition is_leap :: "nat \<Rightarrow> bool" where
  "is_leap y \<longleftrightarrow> y mod 4 = 0 \<and> (y mod 100 \<noteq> 0 \<or> y mod 400 = 0)"

definition days_in_month :: "nat \<Rightarrow> nat \<Rightarrow> nat" where
  "days_in_month y m =
     (if m = 2 then (if is_leap y then 29 else 28)
      else if m = 4 \<or> m = 6 \<or> m = 9 \<or> m = 11 then 30 else 31)"

definition valid_datetime :: "datetime \<Rightarrow> bool" where
  "valid_datetime t \<longleftrightarrow>
     1 \<le> year t \<and> year t \<le> 9999 \<and> 1 \<le> month t \<and> month t \<le> 12 \<and>
     1 \<le> day t \<and> day t \<le> days_in_month (year t) (month t) \<and>
     hour t < 24 \<and> minute t < 60 \<and> second t < 60 \<and> microsecond t < 1000000"

type_synonym date = "nat \<times> nat \<times> nat"

definition date_of :: "datetime \<Rightarrow> date" where
  "date_of t = (year t, month t, day t)"

definition datetime_key :: "datetime \<Rightarrow> nat \<times> nat \<times> nat \<times> nat \<times> nat \<times> nat \<times> nat" where
  "datetime_key t = (year t, month t, day t, hour t, minute t, second t, microsecond t)"

subsection \<open>\<^verbatim>\<open>datetime.isoformat\<close>\<close>

definition digit_char :: "nat \<Rightarrow> char" where
  "digit_char n = char_of (48 + n mod 10)"

fun zpad :: "nat \<Rightarrow> nat \<Rightarrow> string" where
  "zpad 0 n = []"
| "zpad (Suc w) n = zpad w (n div 10) @ [digit_char n]"

text \<open>
  \<^verbatim>\<open>YYYY-MM-DDTHH:MM:SS\<close>, followed by \<^verbatim>\<open>.ffffff\<close> when the microsecond is not
  zero.
\<close>

definition isoformat :: "datetime \<Rightarrow> string" where
  "isoformat t =
     zpad 4 (year t) @ ''-'' @ zpad 2 (month t) @ ''-'' @ zpad 2 (day t) @ ''T'' @
     zpad 2 (hour t) @ '':'' @ zpad 2 (minute t) @ '':'' @ zpad 2 (second t) @
     (if microsecond t = 0 then [] else ''.'' @ zpad 6 (microsecond t))"

subsection \<open>\<^verbatim>\<open>pd.to_datetime\<close> on the texts \<^verbatim>\<open>isoformat\<close> writes\<close>

text \<open>
  \<^verbatim>\<open>pd.to_datetime\<close> is modelled as the element-wise parser of the two ISO 8601
  shapes above; on anything else it raises.
\<close>

definition isdigit :: "char \<Rightarrow> bool" where
  "isdigit c \<longleftrightarrow> 48 \<le> (of_char c :: nat) \<and> (of_char c :: nat) \<le> 57"

fun digits_value :: "nat \<Rightarrow> string \<Rightarrow> nat option" where
  "digits_value a [] = Some a"
| "digits_value a (c # cs) =
     (if isdigit c then digits_value (10 * a + (of_char c - 48)) cs else None)"

definition slice :: "'a list \<Rightarrow> nat \<Rightarrow> nat \<Rightarrow> 'a list" where
  "slice s i j = take (j - i) (drop i s)"

definition to_datetime :: "string \<Rightarrow> datetime option" where
  "to_datetime s =
     (let n = length s in
      if (n = 19 \<or> n = 26) \<and> slice s 4 5 = ''-'' \<and> slice s 7 8 = ''-'' \<and>
         slice s 10 11 = ''T'' \<and> slice s 13 14 = '':'' \<and> slice s 16 17 = '':'' \<and>
         (n = 26 \<longrightarrow> slice s 19 20 = ''.'')
      then
        Option.bind (digits_value 0 (slice s 0 4)) (\<lambda>y.
        Option.bind (digits_value 0 (slice s 5 7)) (\<lambda>mo.
        Option.bind (digits_value 0 (slice s 8 10)) (\<lambda>d.
        Option.bind (digits_value 0 (slice s 11 13)) (\<lambda>h.
        Option.bind (digits_value 0 (slice s 14 16)) (\<lambda>mi.
        Option.bind (digits_value 0 (slice s 17 19)) (\<lambda>se.
        Option.bind (digits_value 0 (slice s 20 26)) (\<lambda>us.
          (let t = \<lparr>year = y, month = mo, day = d, hour = h, minute = mi, second = se,
                    microsecond = us\<rparr>
           in if valid_datetime t then Some t else None))))))))
      else None)"

text \<open>
  The texts that \<^verbatim>\<open>add_sale\<close> can have written: the \<^verbatim>\<open>isoformat\<close> of a valid
  datetime.
\<close>

definition iso_text :: "string \<Rightarrow> bool" where
  "iso_text s \<longleftrightarrow> (case to_datetime s of None \<Rightarrow> False | Some t \<Rightarrow> isoformat t = s)"


section \<open>Data frames\<close>

text \<open>
  The part of pandas that \<^verbatim>\<open>app.py\<close> uses. A frame is the list of its named
  columns; a column (a Series) has a dtype and its values. \<^verbatim>\<open>df[name]\<close> raises
  \<^verbatim>\<open>KeyError\<close> for a missing column, \<^verbatim>\<open>df[name] = col\<close> replaces the column or
  appends it, \<^verbatim>\<open>df.empty\<close> holds when an axis has length zero.
\<close>

datatype dtype = Int64 | Float64 | Object | Datetime64

datatype cell = I int | R real | T string | Ts datetime | Dv date

type_synonym series = "dtype \<times> cell list"

type_synonym dataframe = "(string \<times> series) list"

definition bind_result :: "'a result \<Rightarrow> ('a \<Rightarrow> 'b result) \<Rightarrow> 'b result" where
  "bind_result r f = (case r of Inl e \<Rightarrow> Inl e | Inr v \<Rightarrow> f v)"

definition nrows :: "dataframe \<Rightarrow> nat" where
  "nrows df = (case df of [] \<Rightarrow> 0 | c # _ \<Rightarrow> length (snd (snd c)))"

definition df_empty :: "dataframe \<Rightarrow> bool" where
  "df_empty df \<longleftrightarrow> df = [] \<or> nrows df = 0"

definition getitem :: "dataframe \<Rightarrow> string \<Rightarrow> series result" where
  "getitem df nm = (case map_of df nm of None \<Rightarrow> Inl (KeyError nm) | Some c \<Rightarrow> Inr c)"

definition setitem :: "dataframe \<Rightarrow> string \<Rightarrow> series \<Rightarrow> dataframe" where
  "setitem df nm c =
     (if nm \<in> set (map fst df) then map (\<lambda>x. if fst x = nm then (nm, c) else x) df
      else df @ [(nm, c)])"

definition column_names :: "dataframe \<Rightarrow> string list" where
  "column_names df = map fst df"

text \<open>
  \<^verbatim>\<open>pd.read_sql_query\<close> infers a column's dtype from the values fetched: integers
  give \<^verbatim>\<open>int64\<close>, REAL gives \<^verbatim>\<open>float64\<close>, TEXT gives \<^verbatim>\<open>object\<close>; with no row
  fetched every column is \<^verbatim>\<open>object\<close>.
\<close>

definition inferred :: "'a list \<Rightarrow> dtype \<Rightarrow> dtype" where
  "inferred rs t = (if rs = [] then Object else t)"

definition products_frame :: "product list \<Rightarrow> dataframe" where
  "products_frame ps =
     [(''id'', (inferred ps Int64, map (\<lambda>p. I (p_id p)) ps)),
      (''name'', (Object, map (\<lambda>p. T (p_name p)) ps)),
      (''price'', (inferred ps Float64, map (\<lambda>p. R (p_price p)) ps))]"

definition sales_frame :: "(sale \<times> product) list \<Rightarrow> dataframe" where
  "sales_frame rs =
     [(''id'', (inferred rs Int64, map (\<lambda>sp. I (s_id (fst sp))) rs)),
      (''product_id'', (inferred rs Int64, map (\<lambda>sp. I (s_product_id (fst sp))) rs)),
      (''product'', (Object, map (\<lambda>sp. T (p_name (snd sp))) rs)),
      (''price'', (inferred rs Float64, map (\<lambda>sp. R (p_price (snd sp))) rs)),
      (''qty'', (inferred rs Int64, map (\<lambda>sp. I (s_qty (fst sp))) rs)),
      (''sold_at'', (Object, map (\<lambda>sp. T (s_sold_at (fst sp))) rs))]"

fun cell_to_datetime :: "cell \<Rightarrow> cell option" where
  "cell_to_datetime (T s) = map_option Ts (to_datetime s)"
| "cell_to_datetime (Ts t) = Some (Ts t)"
| "cell_to_datetime _ = None"

definition pd_to_datetime :: "series \<Rightarrow> series result" where
  "pd_to_datetime c =
     (case those (map cell_to_datetime (snd c)) of
        None \<Rightarrow> Inl (ValueError ''time data does not match format'')
      | Some cs \<Rightarrow> Inr (Datetime64, cs))"

fun mul_cell :: "cell \<Rightarrow> cell \<Rightarrow> cell option" where
  "mul_cell (I a) (I b) = Some (I (a * b))"
| "mul_cell (I a) (R b) = Some (R (real_of_int a * b))"
| "mul_cell (R a) (I b) = Some (R (a * real_of_int b))"
| "mul_cell (R a) (R b) = Some (R (a * b))"
| "mul_cell _ _ = None"

definition mul_series :: "series \<Rightarrow> series \<Rightarrow> series result" where
  "mul_series a b =
     (case those (map2 mul_cell (snd a) (snd b)) of
        None \<Rightarrow> Inl (TypeError ''unsupported operand type(s) for *'')
      | Some cs \<Rightarrow> Inr (if fst a = Int64 \<and> fst b = Int64 then Int64 else Float64, cs))"

section \<open>The functions of \<^verbatim>\<open>app.py\<close>\<close>

subsection \<open>The two read queries, as written under the \<^verbatim>\<open>st.cache_data\<close> decorator\<close>

definition load_products_uncached :: "db \<Rightarrow> dataframe result" where
  "load_products_uncached d = Inr (products_frame (select_products d))"

definition load_sales_uncached :: "db \<Rightarrow> dataframe result" where
  "load_sales_uncached d =
     (let df = sales_frame (select_sales d) in
      if \<not> df_empty df then
        bind_result (getitem df ''sold_at'') (\<lambda>c.
        bind_result (pd_to_datetime c) (\<lambda>c'.
        let df1 = setitem df ''sold_at'' c' in
        bind_result (getitem df1 ''qty'') (\<lambda>q.
        bind_result (getitem df1 ''price'') (\<lambda>p.
        bind_result (mul_series q p) (\<lambda>r.
        Inr (setitem df1 ''revenue'' r))))))
      else Inr df)"

subsection \<open>\<^verbatim>\<open>st.cache_data(ttl=10)\<close>\<close>

text \<open>
  The decorator keeps the last value the function returned together with the time it
  was computed, hands it out again for \<^verbatim>\<open>ttl\<close> seconds, and forgets it on
  \<^verbatim>\<open>clear()\<close>. Time is a parameter of every read: the clock's value, in seconds, when
  the call is made.
\<close>

type_synonym 'a memo = "(real \<times> 'a) option"

definition ttl :: real where
  "ttl = 10"

definition memo_lookup :: "real \<Rightarrow> 'a memo \<Rightarrow> 'a option" where
  "memo_lookup now m =
     (case m of None \<Rightarrow> None | Some e \<Rightarrow> if now < fst e + ttl then Some (snd e) else None)"

definition cache_data :: "real \<Rightarrow> 'a memo \<Rightarrow> 'a result \<Rightarrow> 'a result \<times> 'a memo" where
  "cache_data now m compute =
     (case memo_lookup now m of
        Some v \<Rightarrow> (Inr v, m)
      | None \<Rightarrow> (case compute of Inl e \<Rightarrow> (Inl e, m) | Inr v \<Rightarrow> (Inr v, Some (now, v))))"

record app =
  database :: db
  products_memo :: "dataframe memo"
  sales_memo :: "dataframe memo"

definition fresh_app :: "db \<Rightarrow> app" where
  "fresh_app d = \<lparr>database = d, products_memo = None, sales_memo = None\<rparr>"

definition load_products :: "real \<Rightarrow> app \<Rightarrow> dataframe result \<times> app" where
  "load_products now a =
     (let r = cache_data now (products_memo a) (load_products_uncached (database a))
      in (fst r, a\<lparr>products_memo := snd r\<rparr>))"

definition load_sales :: "real \<Rightarrow> app \<Rightarrow> dataframe result \<times> app" where
  "load_sales now a =
     (let r = cache_data now (sales_memo a) (load_sales_uncached (database a))
      in (fst r, a\<lparr>sales_memo := snd r\<rparr>))"

subsection \<open>The three writers\<close>

text \<open>
  Each writer runs its statement and commits. \<^verbatim>\<open>add_product\<close> and
  \<^verbatim>\<open>update_product_price\<close> then call \<^verbatim>\<open>load_products.clear()\<close>; a statement
  that raises leaves before that line. \<^verbatim>\<open>add_sale\<close> ends with the commit.
\<close>

definition add_product :: "string \<Rightarrow> real \<Rightarrow> app \<Rightarrow> unit result \<times> app" where
  "add_product nm pr a =
     (Inr (), a\<lparr>database := insert_or_ignore_product (strip nm) pr (database a),
               products_memo := None\<rparr>)"

definition update_product_price :: "int \<Rightarrow> real \<Rightarrow> app \<Rightarrow> unit result \<times> app" where
  "update_product_price pid new_price a =
     (case update_price new_price pid (database a) of
        (Inl e, d) \<Rightarrow> (Inl e, a\<lparr>database := d\<rparr>)
      | (Inr u, d) \<Rightarrow> (Inr u, a\<lparr>database := d, products_memo := None\<rparr>))"

definition add_sale :: "int \<Rightarrow> int \<Rightarrow> datetime \<Rightarrow> app \<Rightarrow> unit result \<times> app" where
  "add_sale pid q sold_at a =
     (let r = insert_sale pid q (isoformat sold_at) (database a)
      in (fst r, a\<lparr>database := snd r\<rparr>))"

section \<open>Invariants of the running application\<close>

text \<open>
  What the constraints of the schema, together with the fact that rows are only ever
  written by the three writers, guarantee of every database the application meets:
  product ids and names are pairwise different and prices are not negative; sale ids
  are pairwise different, every sale refers to a stored product, has a positive
  quantity and holds a timestamp text written by \<^verbatim>\<open>isoformat\<close>.
\<close>

definition db_ok :: "db \<Rightarrow> bool" where
  "db_ok d \<longleftrightarrow>
     distinct (map p_id (products d)) \<and> distinct (map p_name (products d)) \<and>
     (\<forall>p \<in> set (products d). 0 \<le> p_price p) \<and>
     distinct (map s_id (sales d)) \<and>
     (\<forall>s \<in> set (sales d).
        s_product_id s \<in> set (map p_id (products d)) \<and> 0 < s_qty s \<and> iso_text (s_sold_at s))"

text \<open>The remembered product listing, if there is one, is the listing of the database.\<close>

definition products_memo_ok :: "app \<Rightarrow> bool" where
  "products_memo_ok a \<longleftrightarrow>
     (case products_memo a of
        None \<Rightarrow> True
      | Some e \<Rightarrow> snd e = products_frame (select_products (database a)))"

text \<open>The states the application can be in: any sequence of calls from an empty database.\<close>

inductive reachable :: "app \<Rightarrow> bool" where
  start: "reachable (fresh_app empty_db)"
| after_add_product: "reachable a \<Longrightarrow> reachable (snd (add_product nm pr a))"
| after_update_product_price: "reachable a \<Longrightarrow> reachable (snd (update_product_price i pr a))"
| after_add_sale: "reachable a \<Longrightarrow> valid_datetime t \<Longrightarrow> reachable (snd (add_sale i q t a))"
| after_load_products: "reachable a \<Longrightarrow> reachable (snd (load_products now a))"
| after_load_sales: "reachable a \<Longrightarrow> reachable (snd (load_sales now a))"

section \<open>Verified properties\<close>

subsection \<open>Row identifiers\<close>

lemma fold_max_ge: "fold max xs (a::int) \<ge> a"
proof (induction xs arbitrary: a)
  case Nil then show ?case by simp
next
  case (Cons x xs)
  have "a \<le> max x a" by simp
  also have "max x a \<le> fold max xs (max x a)" by (rule Cons.IH)
  finally show ?case by simp
qed

lemma fold_max_mem: "x \<in> set xs \<Longrightarrow> x \<le> fold max xs (a::int)"
proof (induction xs arbitrary: a)
  case Nil then show ?case by simp
next
  case (Cons y ys)
  show ?case
  proof (cases "x = y")
    case True
    have "max y a \<le> fold max ys (max y a)" by (rule fold_max_ge)
    with True show ?thesis by simp
  next
    case False
    with Cons show ?thesis by simp
  qed
qed

lemma new_rowid_fresh: "new_rowid ids seq \<notin> set ids"
proof
  assume "new_rowid ids seq \<in> set ids"
  then have "new_rowid ids seq \<le> fold max ids 0" by (rule fold_max_mem)
  then show False by (simp add: new_rowid_def)
qed

subsection \<open>Adding products\<close>

text \<open>
  Claim C9. For every negative price, \<^verbatim>\<open>add_product\<close> returns normally and the
  products table is what it was: \<^verbatim>\<open>INSERT OR IGNORE\<close> skips the row that fails
  \<^verbatim>\<open>CHECK(price >= 0)\<close> just as it skips a row with a name already stored.
\<close>

theorem add_product_negative_price:
  "pr < 0 \<Longrightarrow>
     fst (add_product nm pr a) = Inr () \<and>
     products (database (snd (add_product nm pr a))) = products (database a)"
  by (simp add: add_product_def insert_or_ignore_product_def Let_def)

theorem add_product_negative_price_witness:
  "(-1 :: real) < 0 \<and>
   fst (add_product ''Tea'' (-1) (fresh_app empty_db)) = Inr () \<and>
   products (database (snd (add_product ''Tea'' (-1) (fresh_app empty_db)))) = []"
  using add_product_negative_price [of "-1" "''Tea''" "fresh_app empty_db"]
  by (simp add: fresh_app_def empty_db_def)

text \<open>
  The stored names are pairwise different in every state the application can reach: the
  UNIQUE constraint on \<^verbatim>\<open>name\<close> is what \<^verbatim>\<open>INSERT OR IGNORE\<close> tests, and no
  statement rewrites a name.
\<close>

lemma names_distinct_reachable:
  "reachable a \<Longrightarrow> distinct (map p_name (products (database a)))"
proof (induction rule: reachable.induct)
  case start
  then show ?case by (simp add: fresh_app_def empty_db_def)
next
  case (after_add_product a nm pr)
  then show ?case by (simp add: add_product_def insert_or_ignore_product_def Let_def)
next
  case (after_update_product_price a i pr)
  have "map p_name (map (\<lambda>p. if p_id p = i then p\<lparr>p_price := pr\<rparr> else p) ps) = map p_name ps"
    for ps :: "product list"
    by (induction ps) simp_all
  with after_update_product_price show ?case
    by (simp add: update_product_price_def update_price_def del: map_map)
next
  case (after_add_sale a t i q)
  then show ?case by (simp add: add_sale_def insert_sale_def Let_def)
next
  case (after_load_products a now)
  then show ?case by (simp add: load_products_def Let_def)
next
  case (after_load_sales a now)
  then show ?case by (simp add: load_sales_def Let_def)
qed

text \<open>
  Claim C2. Two calls of \<^verbatim>\<open>add_product\<close> whose names are equal after trimming, the
  first with a price that is not negative (the only prices the form submits), and the
  second with any price at all: both calls return normally, the second call leaves the
  products table exactly as the first call left it, and the table then holds exactly
  one row of that name. When the first call is the one that inserts the name, that
  row's price is the first call's price; when the name was stored before, neither call
  changes the table. The stored names are pairwise different by
  \<open>names_distinct_reachable\<close>.
\<close>

theorem add_product_twice:
  assumes "strip n1 = strip n2" and "0 \<le> p1"
    and "distinct (map p_name (products (database a)))"
  shows "fst (add_product n1 p1 a) = Inr () \<and>
     fst (add_product n2 p2 (snd (add_product n1 p1 a))) = Inr () \<and>
     products (database (snd (add_product n2 p2 (snd (add_product n1 p1 a))))) =
       products (database (snd (add_product n1 p1 a))) \<and>
     length (filter (\<lambda>p. p_name p = strip n1)
        (products (database (snd (add_product n2 p2 (snd (add_product n1 p1 a))))))) = 1 \<and>
     (strip n1 \<notin> set (map p_name (products (database a))) \<longrightarrow>
        map p_price (filter (\<lambda>p. p_name p = strip n1)
          (products (database (snd (add_product n2 p2 (snd (add_product n1 p1 a))))))) = [p1]) \<and>
     (strip n1 \<in> set (map p_name (products (database a))) \<longrightarrow>
        products (database (snd (add_product n2 p2 (snd (add_product n1 p1 a))))) =
          products (database a))"
proof -
  let ?d = "database a"
  let ?n = "strip n1"
  have len: "distinct (map p_name ps) \<Longrightarrow> ?n \<in> set (map p_name ps) \<Longrightarrow>
      length (filter (\<lambda>p. p_name p = ?n) ps) = 1" for ps :: "product list"
  proof (induction ps)
    case Nil then show ?case by simp
  next
    case (Cons q qs)
    show ?case
    proof (cases "p_name q = ?n")
      case True
      with Cons.prems have "?n \<notin> set (map p_name qs)" by auto
      then have "filter (\<lambda>p. p_name p = ?n) qs = []" by (force simp: filter_empty_conv)
      with True show ?thesis by simp
    next
      case False
      with Cons show ?thesis by auto
    qed
  qed
  have none: "?n \<notin> set (map p_name ps) \<Longrightarrow> filter (\<lambda>p. p_name p = ?n) ps = []"
    for ps :: "product list"
    by (force simp: filter_empty_conv)
  show ?thesis
  proof (cases "?n \<in> set (map p_name (products ?d))")
    case True
    with assms len[of "products ?d"] show ?thesis
      by (simp add: add_product_def insert_or_ignore_product_def Let_def)
  next
    case False
    with assms none[of "products ?d"] show ?thesis
      by (simp add: add_product_def insert_or_ignore_product_def Let_def)
  qed
qed

theorem add_product_twice_witness:
  "strip '' Tea'' = strip ''Tea '' \<and> (0::real) \<le> 3 \<and>
   distinct (map p_name (products (database (fresh_app empty_db)))) \<and>
   strip '' Tea'' \<notin> set (map p_name (products (database (fresh_app empty_db)))) \<and>
   products (database (snd (add_product ''Tea '' 4
      (snd (add_product '' Tea'' 3 (fresh_app empty_db)))))) =
     [\<lparr>p_id = 1, p_name = ''Tea'', p_price = 3\<rparr>] \<and>
   map p_price (filter (\<lambda>p. p_name p = strip '' Tea'')
      (products (database (snd (add_product ''Tea '' 4
         (snd (add_product '' Tea'' 3 (fresh_app empty_db)))))))) = [3]"
proof -
  have s: "strip '' Tea'' = strip ''Tea ''"
    by (simp add: strip_def lstrip_def rstrip_def isspace_def)
  have p: "(0::real) \<le> 3" by simp
  have d: "distinct (map p_name (products (database (fresh_app empty_db))))"
    by (simp add: fresh_app_def empty_db_def)
  have e: "products (database (snd (add_product ''Tea '' 4
      (snd (add_product '' Tea'' 3 (fresh_app empty_db)))))) =
     [\<lparr>p_id = 1, p_name = ''Tea'', p_price = 3\<rparr>]"
    by (simp add: add_product_def insert_or_ignore_product_def Let_def fresh_app_def empty_db_def
      new_rowid_def strip_def lstrip_def rstrip_def isspace_def)
  from add_product_twice [OF s p d, of 4] s p d e show ?thesis
    by (simp add: fresh_app_def empty_db_def strip_def lstrip_def rstrip_def isspace_def)
qed

subsection \<open>Recording a sale\<close>

text \<open>
  Claim C5, as stated, fails where its two failure conditions overlap, and for integers
  SQLite cannot store: with a product id that is not stored and a quantity of 0 the
  statement fails on \<^verbatim>\<open>CHECK(qty > 0)\<close>, not on the foreign key; with a product id of
  \<^verbatim>\<open>2 ** 63\<close> the driver raises \<^verbatim>\<open>OverflowError\<close> and SQLite is never asked.
\<close>

theorem add_sale_counterexample:
  "7 \<notin> set (map p_id (products (database (fresh_app empty_db)))) \<and>
   fst (add_sale 7 0 \<lparr>year = 2024, month = 3, day = 9, hour = 12, minute = 0, second = 0,
      microsecond = 0\<rparr> (fresh_app empty_db)) = Inl (IntegrityError CHECK_failed) \<and>
   fst (add_sale (2 ^ 63) 1 \<lparr>year = 2024, month = 3, day = 9, hour = 12, minute = 0, second = 0,
      microsecond = 0\<rparr> (fresh_app empty_db)) = Inl OverflowError"
  by (simp add: add_sale_def insert_sale_def fits_int64_def fresh_app_def empty_db_def)

text \<open>
  Claim C5, amended. For a product id and a quantity that fit SQLite's INTEGER,
  \<^verbatim>\<open>add_sale\<close> appends one new row to the sales table when the product is stored
  and the quantity is positive; it fails with the CHECK constraint violation when the
  quantity is zero or negative, whether or not the product is stored; it fails with
  the foreign key violation when the quantity is positive and the product is not
  stored; in both failures the sales table is what it was.
\<close>

theorem add_sale_outcomes:
  assumes "fits_int64 pid" and "fits_int64 q"
  shows
    "(0 < q \<and> pid \<in> set (map p_id (products (database a))) \<longrightarrow>
        fst (add_sale pid q t a) = Inr () \<and>
        sales (database (snd (add_sale pid q t a))) =
          sales (database a) @
            [\<lparr>s_id = new_rowid (map s_id (sales (database a))) (sales_seq (database a)),
              s_product_id = pid, s_qty = q, s_sold_at = isoformat t\<rparr>]) \<and>
     (q \<le> 0 \<longrightarrow>
        fst (add_sale pid q t a) = Inl (IntegrityError CHECK_failed) \<and>
        sales (database (snd (add_sale pid q t a))) = sales (database a)) \<and>
     (0 < q \<and> pid \<notin> set (map p_id (products (database a))) \<longrightarrow>
        fst (add_sale pid q t a) = Inl (IntegrityError FOREIGN_KEY_failed) \<and>
        sales (database (snd (add_sale pid q t a))) = sales (database a))"
  using assms by (simp add: add_sale_def insert_sale_def Let_def)

theorem add_sale_outcomes_witness:
  "fits_int64 1 \<and> fits_int64 2 \<and> fits_int64 0 \<and> fits_int64 9 \<and>
   1 \<in> set (map p_id (products (database (snd (add_product ''Tea'' 3 (fresh_app empty_db)))))) \<and>
   9 \<notin> set (map p_id (products (database (snd (add_product ''Tea'' 3 (fresh_app empty_db)))))) \<and>
   sales (database (snd (add_sale 1 2 \<lparr>year = 2024, month = 3, day = 9, hour = 12, minute = 0,
        second = 0, microsecond = 0\<rparr> (snd (add_product ''Tea'' 3 (fresh_app empty_db)))))) =
     [\<lparr>s_id = 1, s_product_id = 1, s_qty = 2, s_sold_at = ''2024-03-09T12:00:00''\<rparr>] \<and>
   fst (add_sale 1 0 \<lparr>year = 2024, month = 3, day = 9, hour = 12, minute = 0,
        second = 0, microsecond = 0\<rparr> (snd (add_product ''Tea'' 3 (fresh_app empty_db)))) =
     Inl (IntegrityError CHECK_failed) \<and>
   fst (add_sale 9 2 \<lparr>year = 2024, month = 3, day = 9, hour = 12, minute = 0,
        second = 0, microsecond = 0\<rparr> (snd (add_product ''Tea'' 3 (fresh_app empty_db)))) =
     Inl (IntegrityError FOREIGN_KEY_failed)"
proof -
  let ?a = "snd (add_product ''Tea'' 3 (fresh_app empty_db))"
  let ?t = "\<lparr>year = 2024, month = 3, day = 9, hour = 12, minute = 0,
        second = 0, microsecond = 0\<rparr>"
  have f: "fits_int64 1" "fits_int64 2" "fits_int64 0" "fits_int64 9"
    by (simp_all add: fits_int64_def)
  have a: "database ?a = \<lparr>products = [\<lparr>p_id = 1, p_name = ''Tea'', p_price = 3\<rparr>], sales = [],
      products_seq = 1, sales_seq = 0\<rparr>"
    by (simp add: add_product_def insert_or_ignore_product_def Let_def fresh_app_def empty_db_def
      new_rowid_def strip_def lstrip_def rstrip_def isspace_def)
  have i: "isoformat ?t = ''2024-03-09T12:00:00''"
    by code_simp
  have n: "new_rowid [] 0 = 1" by (simp add: new_rowid_def)
  have m: "(1::int) \<in> set (map p_id (products (database ?a)))"
     "(9::int) \<notin> set (map p_id (products (database ?a)))"
    by (simp_all add: a)
  have x1: "sales (database (snd (add_sale 1 2 ?t ?a))) =
     [\<lparr>s_id = 1, s_product_id = 1, s_qty = 2, s_sold_at = ''2024-03-09T12:00:00''\<rparr>]"
    using add_sale_outcomes [OF f(1) f(2), of ?a ?t] m(1) by (simp add: a i n)
  have x2: "fst (add_sale 1 0 ?t ?a) = Inl (IntegrityError CHECK_failed)"
    using add_sale_outcomes [OF f(1) f(3), of ?a ?t] by simp
  have x3: "fst (add_sale 9 2 ?t ?a) = Inl (IntegrityError FOREIGN_KEY_failed)"
    using add_sale_outcomes [OF f(4) f(2), of ?a ?t] m(2) by simp
  from f m x1 x2 x3 show ?thesis by blast
qed

subsection \<open>Listing the products\<close>

lemma load_products_uncached_listing:
  "load_products_uncached d = Inr (products_frame (select_products d)) \<and>
   mset (select_products d) = mset (products d) \<and>
   sorted (map p_name (select_products d))"
  by (simp add: load_products_uncached_def select_products_def)

lemma products_memo_ok_reachable: "reachable a \<Longrightarrow> products_memo_ok a"
proof (induction rule: reachable.induct)
  case start
  then show ?case by (simp add: products_memo_ok_def fresh_app_def)
next
  case (after_add_product a nm pr)
  then show ?case by (simp add: products_memo_ok_def add_product_def)
next
  case (after_update_product_price a i pr)
  then show ?case
    by (auto simp: products_memo_ok_def update_product_price_def update_price_def
        split: option.splits prod.splits sum.splits if_splits)
next
  case (after_add_sale a t i q)
  then show ?case
    by (auto simp: products_memo_ok_def add_sale_def insert_sale_def select_products_def Let_def
        split: option.splits)
next
  case (after_load_products a now)
  then show ?case
    by (auto simp: products_memo_ok_def load_products_def cache_data_def memo_lookup_def
        load_products_uncached_def Let_def split: option.splits)
next
  case (after_load_sales a now)
  then show ?case
    by (auto simp: products_memo_ok_def load_sales_def cache_data_def memo_lookup_def
        Let_def split: option.splits sum.splits)
qed

text \<open>
  Claim C8. The frame \<^verbatim>\<open>load_products\<close> returns has the three columns \<^verbatim>\<open>id\<close>,
  \<^verbatim>\<open>name\<close> and \<^verbatim>\<open>price\<close>, and its rows are the rows of the products table, each
  once, in ascending order of name: there is an arrangement \<open>ps\<close> of the stored products,
  sorted by name, such that the three columns of the returned frame hold the ids, the
  names and the prices of \<open>ps\<close>, row by row. A remembered listing is never out of date,
  because both writers of the products table clear it (\<open>products_memo_ok\<close> holds in
  every reachable state, see \<open>products_memo_ok_reachable\<close>), so this is true of the
  cached read at any time.
\<close>

theorem load_products_listing:
  assumes "products_memo_ok a"
  shows "\<exists>ps. mset ps = mset (products (database a)) \<and> sorted (map p_name ps) \<and>
     fst (load_products now a) =
       Inr [(''id'', (if ps = [] then Object else Int64, map (\<lambda>p. I (p_id p)) ps)),
            (''name'', (Object, map (\<lambda>p. T (p_name p)) ps)),
            (''price'', (if ps = [] then Object else Float64, map (\<lambda>p. R (p_price p)) ps))]"
proof -
  let ?ps = "select_products (database a)"
  have m: "mset ?ps = mset (products (database a))"
    by (simp add: select_products_def)
  have s: "sorted (map p_name ?ps)"
    by (simp add: select_products_def)
  have "fst (load_products now a) = Inr (products_frame ?ps)"
    using assms
    by (auto simp: load_products_def cache_data_def memo_lookup_def products_memo_ok_def
        load_products_uncached_def Let_def split: option.splits)
  then have f: "fst (load_products now a) =
       Inr [(''id'', (if ?ps = [] then Object else Int64, map (\<lambda>p. I (p_id p)) ?ps)),
            (''name'', (Object, map (\<lambda>p. T (p_name p)) ?ps)),
            (''price'', (if ?ps = [] then Object else Float64, map (\<lambda>p. R (p_price p)) ?ps))]"
    by (simp add: products_frame_def inferred_def)
  from m s f show ?thesis by blast
qed

theorem load_products_listing_witness:
  "products_memo_ok (snd (add_product ''Coffee'' 5 (snd (add_product ''Tea'' 3 (fresh_app empty_db))))) \<and>
   (\<exists>ps. mset ps = mset [\<lparr>p_id = 1, p_name = ''Tea'', p_price = 3\<rparr>,
                          \<lparr>p_id = 2, p_name = ''Coffee'', p_price = 5\<rparr>] \<and>
      sorted (map p_name ps) \<and>
      fst (load_products 0 (snd (add_product ''Coffee'' 5 (snd (add_product ''Tea'' 3 (fresh_app empty_db)))))) =
       Inr [(''id'', (if ps = [] then Object else Int64, map (\<lambda>p. I (p_id p)) ps)),
            (''name'', (Object, map (\<lambda>p. T (p_name p)) ps)),
            (''price'', (if ps = [] then Object else Float64, map (\<lambda>p. R (p_price p)) ps))]) \<and>
   fst (load_products 0 (snd (add_product ''Coffee'' 5 (snd (add_product ''Tea'' 3 (fresh_app empty_db)))))) =
     Inr [(''id'', (Int64, [I 2, I 1])),
          (''name'', (Object, [T ''Coffee'', T ''Tea''])),
          (''price'', (Float64, [R 5, R 3]))]"
proof -
  let ?a = "snd (add_product ''Coffee'' 5 (snd (add_product ''Tea'' 3 (fresh_app empty_db))))"
  have d: "database ?a = \<lparr>products = [\<lparr>p_id = 1, p_name = ''Tea'', p_price = 3\<rparr>,
      \<lparr>p_id = 2, p_name = ''Coffee'', p_price = 5\<rparr>], sales = [], products_seq = 2, sales_seq = 0\<rparr>"
    by (simp add: add_product_def insert_or_ignore_product_def Let_def fresh_app_def empty_db_def
      new_rowid_def strip_def lstrip_def rstrip_def isspace_def)
  have m: "products_memo ?a = None"
    by (simp add: add_product_def)
  have ok: "products_memo_ok ?a"
    by (simp add: products_memo_ok_def m)
  have le: "\<not> (''Tea'' \<le> ''Coffee'')"
    by (simp add: less_char_def less_eq_char_def)
  have s: "select_products (database ?a) = [\<lparr>p_id = 2, p_name = ''Coffee'', p_price = 5\<rparr>,
      \<lparr>p_id = 1, p_name = ''Tea'', p_price = 3\<rparr>]"
    by (simp add: d select_products_def le)
  have c: "fst (load_products 0 ?a) =
     Inr [(''id'', (Int64, [I 2, I 1])),
          (''name'', (Object, [T ''Coffee'', T ''Tea''])),
          (''price'', (Float64, [R 5, R 3]))]"
    by (simp add: load_products_def cache_data_def memo_lookup_def m load_products_uncached_def
        s products_frame_def inferred_def Let_def)
  have p: "products (database ?a) = [\<lparr>p_id = 1, p_name = ''Tea'', p_price = 3\<rparr>,
      \<lparr>p_id = 2, p_name = ''Coffee'', p_price = 5\<rparr>]"
    by (simp add: d)
  from load_products_listing [OF ok, of 0] have
    e: "\<exists>ps. mset ps = mset [\<lparr>p_id = 1, p_name = ''Tea'', p_price = 3\<rparr>,
                          \<lparr>p_id = 2, p_name = ''Coffee'', p_price = 5\<rparr>] \<and>
      sorted (map p_name ps) \<and>
      fst (load_products 0 ?a) =
       Inr [(''id'', (if ps = [] then Object else Int64, map (\<lambda>p. I (p_id p)) ps)),
            (''name'', (Object, map (\<lambda>p. T (p_name p)) ps)),
            (''price'', (if ps = [] then Object else Float64, map (\<lambda>p. R (p_price p)) ps))]"
    unfolding p .
  from ok e c show ?thesis by blast
qed

subsection \<open>Listing the sales of an empty table\<close>

lemma select_sales_no_sales: "sales d = [] \<Longrightarrow> select_sales d = []"
  by (simp add: select_sales_def join_sales_def)

lemma load_sales_uncached_no_sales:
  "sales d = [] \<Longrightarrow> load_sales_uncached d = Inr (sales_frame [])"
  by (simp add: load_sales_uncached_def select_sales_no_sales sales_frame_def df_empty_def
      nrows_def Let_def)

lemma sales_memo_no_sales_reachable:
  "reachable a \<Longrightarrow> sales (database a) = [] \<Longrightarrow> sales_memo a = Some e \<Longrightarrow>
     snd e = sales_frame []"
proof (induction arbitrary: e rule: reachable.induct)
  case start
  then show ?case by (simp add: fresh_app_def)
next
  case (after_add_product a nm pr)
  then show ?case
    by (auto simp: add_product_def insert_or_ignore_product_def Let_def split: if_splits)
next
  case (after_update_product_price a i pr)
  then show ?case
    by (auto simp: update_product_price_def update_price_def split: if_splits)
next
  case (after_add_sale a t i q)
  then show ?case
    by (auto simp: add_sale_def insert_sale_def Let_def split: if_splits)
next
  case (after_load_products a now)
  then show ?case by (simp add: load_products_def Let_def)
next
  case (after_load_sales a now)
  then show ?case
    by (auto simp: load_sales_def cache_data_def memo_lookup_def load_sales_uncached_no_sales
        Let_def split: option.splits if_splits)
qed

text \<open>
  Claim C10. With no stored sale, \<^verbatim>\<open>load_sales\<close> returns the six columns of the query,
  all of dtype \<^verbatim>\<open>object\<close> and with no row: there is no \<^verbatim>\<open>revenue\<close> column (reading
  it raises \<^verbatim>\<open>KeyError\<close>) and \<^verbatim>\<open>sold_at\<close> has not been converted to datetimes.
  This holds of the cached read in every reachable state: sales are never deleted, so a
  remembered listing of a database without sales was computed without sales.
\<close>

theorem load_sales_no_sales:
  assumes "reachable a" and "sales (database a) = []"
  shows "fst (load_sales now a) =
       Inr [(''id'', (Object, [])), (''product_id'', (Object, [])), (''product'', (Object, [])),
            (''price'', (Object, [])), (''qty'', (Object, [])), (''sold_at'', (Object, []))] \<and>
     bind_result (fst (load_sales now a)) (\<lambda>df. getitem df ''revenue'') =
       Inl (KeyError ''revenue'') \<and>
     bind_result (fst (load_sales now a)) (\<lambda>df. getitem df ''sold_at'') = Inr (Object, [])"
proof -
  have f: "sales_frame [] =
       [(''id'', (Object, [])), (''product_id'', (Object, [])), (''product'', (Object, [])),
        (''price'', (Object, [])), (''qty'', (Object, [])), (''sold_at'', (Object, []))]"
    by (simp add: sales_frame_def inferred_def)
  have "fst (load_sales now a) = Inr (sales_frame [])"
  proof (cases "memo_lookup now (sales_memo a)")
    case None
    then show ?thesis
      using assms(2)
      by (simp add: load_sales_def cache_data_def load_sales_uncached_no_sales Let_def)
  next
    case (Some v)
    then obtain e where e: "sales_memo a = Some e" and v: "v = snd e"
      by (auto simp: memo_lookup_def split: option.splits if_splits)
    from sales_memo_no_sales_reachable [OF assms e] v have "v = sales_frame []" by simp
    with Some show ?thesis
      by (simp add: load_sales_def cache_data_def Let_def)
  qed
  then show ?thesis
    by (simp add: f bind_result_def getitem_def)
qed

theorem load_sales_no_sales_witness:
  "reachable (snd (load_sales 0 (snd (add_product ''Tea'' 3 (fresh_app empty_db))))) \<and>
   sales (database (snd (load_sales 0 (snd (add_product ''Tea'' 3 (fresh_app empty_db)))))) = [] \<and>
   fst (load_sales 5 (snd (load_sales 0 (snd (add_product ''Tea'' 3 (fresh_app empty_db)))))) =
       Inr [(''id'', (Object, [])), (''product_id'', (Object, [])), (''product'', (Object, [])),
            (''price'', (Object, [])), (''qty'', (Object, [])), (''sold_at'', (Object, []))] \<and>
   bind_result (fst (load_sales 5 (snd (load_sales 0 (snd (add_product ''Tea'' 3 (fresh_app empty_db)))))))
       (\<lambda>df. getitem df ''revenue'') = Inl (KeyError ''revenue'')"
proof -
  let ?a = "snd (load_sales 0 (snd (add_product ''Tea'' 3 (fresh_app empty_db))))"
  have r: "reachable ?a"
    by (intro reachable.intros)
  have s: "sales (database ?a) = []"
    by (simp add: load_sales_def add_product_def insert_or_ignore_product_def Let_def
        fresh_app_def empty_db_def)
  from load_sales_no_sales [OF r s, of 5] r s show ?thesis by blast
qed

subsection \<open>The frame of the sales query\<close>

lemma those_cell_to_datetime:
  "\<forall>x \<in> set xs. iso_text (f x) \<Longrightarrow>
     those (map cell_to_datetime (map (\<lambda>x. T (f x)) xs)) =
       Some (map (\<lambda>x. Ts (the (to_datetime (f x)))) xs)"
  by (induction xs) (auto simp: iso_text_def split: option.splits)

lemma those_mul_cell:
  "those (map2 mul_cell (map (\<lambda>x. I (f x)) xs) (map (\<lambda>x. R (g x)) xs)) =
     Some (map (\<lambda>x. R (real_of_int (f x) * g x)) xs)"
  by (induction xs) simp_all

lemma load_sales_uncached_frame:
  assumes "\<forall>sp \<in> set (select_sales d). iso_text (s_sold_at (fst sp))"
    and "select_sales d \<noteq> []"
  shows "load_sales_uncached d =
     Inr [(''id'', (Int64, map (\<lambda>sp. I (s_id (fst sp))) (select_sales d))),
          (''product_id'', (Int64, map (\<lambda>sp. I (s_product_id (fst sp))) (select_sales d))),
          (''product'', (Object, map (\<lambda>sp. T (p_name (snd sp))) (select_sales d))),
          (''price'', (Float64, map (\<lambda>sp. R (p_price (snd sp))) (select_sales d))),
          (''qty'', (Int64, map (\<lambda>sp. I (s_qty (fst sp))) (select_sales d))),
          (''sold_at'', (Datetime64,
             map (\<lambda>sp. Ts (the (to_datetime (s_sold_at (fst sp))))) (select_sales d))),
          (''revenue'', (Float64,
             map (\<lambda>sp. R (real_of_int (s_qty (fst sp)) * p_price (snd sp))) (select_sales d)))]"
proof -
  let ?rs = "select_sales d"
  have ne: "\<not> df_empty (sales_frame ?rs)"
    using assms(2) by (simp add: df_empty_def sales_frame_def nrows_def)
  have dt: "pd_to_datetime (Object, map (\<lambda>sp. T (s_sold_at (fst sp))) ?rs) =
      Inr (Datetime64, map (\<lambda>sp. Ts (the (to_datetime (s_sold_at (fst sp))))) ?rs)"
    using those_cell_to_datetime [of ?rs "\<lambda>sp. s_sold_at (fst sp)"] assms(1)
    by (simp add: pd_to_datetime_def)
  have mu: "mul_series (Int64, map (\<lambda>sp. I (s_qty (fst sp))) ?rs)
        (Float64, map (\<lambda>sp. R (p_price (snd sp))) ?rs) =
      Inr (Float64, map (\<lambda>sp. R (real_of_int (s_qty (fst sp)) * p_price (snd sp))) ?rs)"
    using those_mul_cell [of "\<lambda>sp. s_qty (fst sp)" ?rs "\<lambda>sp. p_price (snd sp)"]
    by (simp add: mul_series_def)
  show ?thesis
    unfolding load_sales_uncached_def Let_def
    using ne assms(2)
    by (simp add: sales_frame_def inferred_def getitem_def setitem_def bind_result_def dt mu)
qed

subsection \<open>Reading the sales after recording one\<close>

text \<open>
  Claim C3. \<^verbatim>\<open>add_sale\<close> ends with the commit: unlike \<^verbatim>\<open>add_product\<close> and
  \<^verbatim>\<open>update_product_price\<close>, which call \<^verbatim>\<open>load_products.clear()\<close>, it clears
  nothing. A sales listing remembered less than \<^verbatim>\<open>ttl\<close> seconds ago is therefore still
  remembered after \<^verbatim>\<open>add_sale\<close>, and the next \<^verbatim>\<open>load_sales\<close> hands it out again,
  without the sale just recorded.
\<close>

theorem add_sale_keeps_sales_memo:
  assumes "sales_memo a = Some (t0, v)" and "now < t0 + ttl"
  shows "sales_memo (snd (add_sale pid q t a)) = Some (t0, v) \<and>
     fst (load_sales now (snd (add_sale pid q t a))) = Inr v"
  using assms
  by (simp add: add_sale_def load_sales_def cache_data_def memo_lookup_def Let_def)

theorem add_sale_keeps_sales_memo_witness:
  "sales_memo (snd (load_sales 0 (snd (add_product ''Tea'' 3 (fresh_app empty_db))))) =
     Some (0, [(''id'', (Object, [])), (''product_id'', (Object, [])), (''product'', (Object, [])),
            (''price'', (Object, [])), (''qty'', (Object, [])), (''sold_at'', (Object, []))]) \<and>
   (1::real) < 0 + ttl \<and>
   fst (add_sale 1 2 \<lparr>year = 2024, month = 3, day = 9, hour = 12, minute = 0, second = 0,
         microsecond = 0\<rparr>
       (snd (load_sales 0 (snd (add_product ''Tea'' 3 (fresh_app empty_db)))))) = Inr () \<and>
   fst (load_sales 1 (snd (add_sale 1 2 \<lparr>year = 2024, month = 3, day = 9, hour = 12, minute = 0,
         second = 0, microsecond = 0\<rparr>
       (snd (load_sales 0 (snd (add_product ''Tea'' 3 (fresh_app empty_db)))))))) =
     Inr [(''id'', (Object, [])), (''product_id'', (Object, [])), (''product'', (Object, [])),
            (''price'', (Object, [])), (''qty'', (Object, [])), (''sold_at'', (Object, []))] \<and>
   load_sales_uncached (database (snd (add_sale 1 2 \<lparr>year = 2024, month = 3, day = 9, hour = 12,
         minute = 0, second = 0, microsecond = 0\<rparr>
       (snd (load_sales 0 (snd (add_product ''Tea'' 3 (fresh_app empty_db)))))))) =
     Inr [(''id'', (Int64, [I 1])), (''product_id'', (Int64, [I 1])),
          (''product'', (Object, [T ''Tea''])), (''price'', (Float64, [R 3])),
          (''qty'', (Int64, [I 2])),
          (''sold_at'', (Datetime64, [Ts \<lparr>year = 2024, month = 3, day = 9, hour = 12,
              minute = 0, second = 0, microsecond = 0\<rparr>])),
          (''revenue'', (Float64, [R 6]))]"
proof -
  let ?t = "\<lparr>year = 2024, month = 3, day = 9, hour = 12, minute = 0, second = 0,
         microsecond = 0\<rparr>"
  let ?a0 = "snd (add_product ''Tea'' 3 (fresh_app empty_db))"
  let ?a1 = "snd (load_sales 0 ?a0)"
  let ?a2 = "snd (add_sale 1 2 ?t ?a1)"
  let ?e = "[(''id'', (Object, [])), (''product_id'', (Object, [])), (''product'', (Object, [])),
            (''price'', (Object, [])), (''qty'', (Object, [])), (''sold_at'', (Object, []))]"
  have d0: "database ?a0 = \<lparr>products = [\<lparr>p_id = 1, p_name = ''Tea'', p_price = 3\<rparr>], sales = [],
      products_seq = 1, sales_seq = 0\<rparr>"
    by (simp add: add_product_def insert_or_ignore_product_def Let_def fresh_app_def empty_db_def
      new_rowid_def strip_def lstrip_def rstrip_def isspace_def)
  have m0: "sales_memo ?a0 = None"
    by (simp add: add_product_def fresh_app_def)
  have u0: "load_sales_uncached (database ?a0) = Inr ?e"
    by (simp add: d0 load_sales_uncached_def select_sales_def join_sales_def sales_frame_def
        inferred_def df_empty_def nrows_def Let_def)
  have m1: "sales_memo ?a1 = Some (0, ?e)"
    by (simp add: load_sales_def cache_data_def memo_lookup_def m0 u0 Let_def)
  have d1: "database ?a1 = database ?a0"
    by (simp add: load_sales_def Let_def)
  have c: "(1::real) < 0 + ttl"
    by (simp add: ttl_def)
  have i: "isoformat ?t = ''2024-03-09T12:00:00''"
    by code_simp
  have p: "to_datetime ''2024-03-09T12:00:00'' = Some ?t"
    by (simp add: to_datetime_def slice_def Let_def isdigit_def valid_datetime_def
        days_in_month_def is_leap_def)
  have it: "iso_text ''2024-03-09T12:00:00''"
    by (simp add: iso_text_def p i)
  have r: "fst (add_sale 1 2 ?t ?a1) = Inr ()"
    by (simp add: add_sale_def insert_sale_def fits_int64_def d1 d0 Let_def)
  have d2: "database ?a2 = \<lparr>products = [\<lparr>p_id = 1, p_name = ''Tea'', p_price = 3\<rparr>],
      sales = [\<lparr>s_id = 1, s_product_id = 1, s_qty = 2, s_sold_at = ''2024-03-09T12:00:00''\<rparr>],
      products_seq = 1, sales_seq = 1\<rparr>"
    by (simp add: add_sale_def insert_sale_def fits_int64_def d1 d0 i new_rowid_def Let_def)
  have s2: "select_sales (database ?a2) =
      [(\<lparr>s_id = 1, s_product_id = 1, s_qty = 2, s_sold_at = ''2024-03-09T12:00:00''\<rparr>,
        \<lparr>p_id = 1, p_name = ''Tea'', p_price = 3\<rparr>)]"
    by (simp add: d2 select_sales_def join_sales_def)
  have u2: "load_sales_uncached (database ?a2) =
     Inr [(''id'', (Int64, [I 1])), (''product_id'', (Int64, [I 1])),
          (''product'', (Object, [T ''Tea''])), (''price'', (Float64, [R 3])),
          (''qty'', (Int64, [I 2])),
          (''sold_at'', (Datetime64, [Ts ?t])),
          (''revenue'', (Float64, [R 6]))]"
    using load_sales_uncached_frame [of "database ?a2"]
    by (simp add: s2 it p)
  from add_sale_keeps_sales_memo [OF m1 c, of 1 2 ?t] have
    st: "fst (load_sales 1 ?a2) = Inr ?e" by simp
  from m1 c r st u2 show ?thesis by blast
qed

subsection \<open>Zero-padded decimal fields\<close>

lemma length_zpad: "length (zpad w n) = w"
  by (induction w arbitrary: n) auto

lemma of_char_digit_char: "(of_char (digit_char n) :: nat) = 48 + n mod 10"
proof -
  have "48 + n mod 10 < 256"
    using mod_less_divisor[of 10 n] by arith
  then show ?thesis by (simp add: digit_char_def)
qed

lemma isdigit_digit_char: "isdigit (digit_char n)"
  by (simp add: isdigit_def of_char_digit_char)

lemma digits_value_append:
  "digits_value a (xs @ ys) = Option.bind (digits_value a xs) (\<lambda>b. digits_value b ys)"
  by (induction xs arbitrary: a) auto

lemma digits_value_zpad: "digits_value a (zpad w n) = Some (a * 10 ^ w + n mod 10 ^ w)"
proof (induction w arbitrary: n a)
  case 0
  then show ?case by simp
next
  case (Suc w)
  have "n div 10 mod 10 ^ w * 10 + n mod 10 = n mod (10 * 10 ^ w)"
    by (simp add: mod_mult2_eq mult.commute)
  then show ?case
    by (simp add: digits_value_append Suc.IH isdigit_digit_char of_char_digit_char algebra_simps)
qed

lemma digits_value_zpad_small: "n < 10 ^ w \<Longrightarrow> digits_value 0 (zpad w n) = Some n"
  by (simp add: digits_value_zpad)

lemma lex_append_same_length:
  fixes a b :: "'a::linorder list"
  shows "length a = length b \<Longrightarrow> (a @ x < b @ y) = (a < b \<or> a = b \<and> x < y)"
proof (induction a arbitrary: b)
  case Nil
  then show ?case by simp
next
  case (Cons c cs)
  then obtain d ds where b: "b = d # ds" by (cases b) auto
  with Cons show ?case by auto
qed

lemma digit_char_less: "(digit_char n < digit_char m) = (n mod 10 < m mod 10)"
  by (simp add: less_char_def of_char_digit_char)

lemma digit_char_eq: "(digit_char n = digit_char m) = (n mod 10 = m mod 10)"
proof
  assume "digit_char n = digit_char m"
  then have "(of_char (digit_char n) :: nat) = of_char (digit_char m)" by simp
  then show "n mod 10 = m mod 10" by (simp add: of_char_digit_char)
next
  assume "n mod 10 = m mod 10"
  then show "digit_char n = digit_char m" by (simp add: digit_char_def)
qed

lemma zpad_eq: "n < 10 ^ w \<Longrightarrow> m < 10 ^ w \<Longrightarrow> (zpad w n = zpad w m) = (n = m)"
proof (induction w arbitrary: n m)
  case 0
  then show ?case by simp
next
  case (Suc w)
  from Suc.prems have "n div 10 < 10 ^ w" "m div 10 < 10 ^ w"
    by (simp_all add: less_mult_imp_div_less mult.commute)
  then have "(zpad w (n div 10) = zpad w (m div 10)) = (n div 10 = m div 10)"
    by (rule Suc.IH)
  moreover have "(n div 10 = m div 10 \<and> n mod 10 = m mod 10) = (n = m)"
    by (metis div_mult_mod_eq)
  ultimately show ?case by (simp add: digit_char_eq)
qed

lemma zpad_less: "n < 10 ^ w \<Longrightarrow> m < 10 ^ w \<Longrightarrow> (zpad w n < zpad w m) = (n < m)"
proof (induction w arbitrary: n m)
  case 0
  then show ?case by simp
next
  case (Suc w)
  from Suc.prems have b: "n div 10 < 10 ^ w" "m div 10 < 10 ^ w"
    by (simp_all add: less_mult_imp_div_less mult.commute)
  then have l: "(zpad w (n div 10) < zpad w (m div 10)) = (n div 10 < m div 10)"
    by (rule Suc.IH)
  from b have e: "(zpad w (n div 10) = zpad w (m div 10)) = (n div 10 = m div 10)"
    by (rule zpad_eq)
  define q1 r1 q2 r2 where "q1 = n div 10" and "r1 = n mod 10" and "q2 = m div 10"
    and "r2 = m mod 10"
  have "n = 10 * q1 + r1" "m = 10 * q2 + r2" "r1 < 10" "r2 < 10"
    by (simp_all add: q1_def r1_def q2_def r2_def)
  then have a: "(q1 < q2 \<or> q1 = q2 \<and> r1 < r2) = (n < m)"
    by arith
  have "(zpad w (n div 10) @ [digit_char n] < zpad w (m div 10) @ [digit_char m]) =
      (zpad w (n div 10) < zpad w (m div 10) \<or>
       zpad w (n div 10) = zpad w (m div 10) \<and> [digit_char n] < [digit_char m])"
    by (rule lex_append_same_length) (simp add: length_zpad)
  also have "\<dots> = (q1 < q2 \<or> q1 = q2 \<and> r1 < r2)"
    by (simp add: l e digit_char_less q1_def r1_def q2_def r2_def)
  finally show ?case
    by (simp add: a)
qed

lemma field_less:
  "a < 10 ^ w \<Longrightarrow> b < 10 ^ w \<Longrightarrow>
     (zpad w a @ x < zpad w b @ y) = (a < b \<or> a = b \<and> x < y)"
  using lex_append_same_length [of "zpad w a" "zpad w b" x y]
  by (simp add: length_zpad zpad_less zpad_eq)

lemma tail_less:
  assumes "a < 10 ^ 6" and "b < 10 ^ 6"
  shows "((if a = 0 then [] else ''.'' @ zpad 6 a) < (if b = 0 then [] else ''.'' @ zpad 6 b)) =
     (a < b)"
  using zpad_less [OF assms] by simp

lemma valid_datetime_bounds:
  assumes "valid_datetime t"
  shows "year t < 10 ^ 4" "month t < 10 ^ 2" "day t < 10 ^ 2" "hour t < 10 ^ 2"
    "minute t < 10 ^ 2" "second t < 10 ^ 2" "microsecond t < 10 ^ 6"
proof -
  have "days_in_month (year t) (month t) \<le> 31"
    by (simp add: days_in_month_def)
  with assms show "year t < 10 ^ 4" "month t < 10 ^ 2" "day t < 10 ^ 2" "hour t < 10 ^ 2"
    "minute t < 10 ^ 2" "second t < 10 ^ 2" "microsecond t < 10 ^ 6"
    by (simp_all add: valid_datetime_def)
qed

subsection \<open>\<^verbatim>\<open>isoformat\<close> keeps the order of timestamps\<close>

lemma field_sep_less:
  "a < 10 ^ w \<Longrightarrow> b < 10 ^ w \<Longrightarrow>
     (zpad w a @ c # x < zpad w b @ c # y) = (a < b \<or> a = b \<and> x < y)"
  using field_less [of a w b "c # x" "c # y"] by simp

lemma less_prod_eq:
  fixes a b :: "'a::linorder"
  shows "((a, x) < (b, y)) = (a < b \<or> a = b \<and> x < y)"
  by auto

lemma isoformat_less_fields:
  assumes "valid_datetime t1" and "valid_datetime t2"
  shows "(isoformat t1 < isoformat t2) =
     (year t1 < year t2 \<or> year t1 = year t2 \<and>
      (month t1 < month t2 \<or> month t1 = month t2 \<and>
       (day t1 < day t2 \<or> day t1 = day t2 \<and>
        (hour t1 < hour t2 \<or> hour t1 = hour t2 \<and>
         (minute t1 < minute t2 \<or> minute t1 = minute t2 \<and>
          (second t1 < second t2 \<or> second t1 = second t2 \<and>
           microsecond t1 < microsecond t2))))))"
  using valid_datetime_bounds [OF assms(1)] valid_datetime_bounds [OF assms(2)]
  by (simp add: isoformat_def field_sep_less field_less tail_less)

lemma datetime_key_less_fields:
  "(datetime_key t1 < datetime_key t2) =
     (year t1 < year t2 \<or> year t1 = year t2 \<and>
      (month t1 < month t2 \<or> month t1 = month t2 \<and>
       (day t1 < day t2 \<or> day t1 = day t2 \<and>
        (hour t1 < hour t2 \<or> hour t1 = hour t2 \<and>
         (minute t1 < minute t2 \<or> minute t1 = minute t2 \<and>
          (second t1 < second t2 \<or> second t1 = second t2 \<and>
           microsecond t1 < microsecond t2))))))"
  by (simp only: datetime_key_def less_prod_eq)

lemma isoformat_less:
  "valid_datetime t1 \<Longrightarrow> valid_datetime t2 \<Longrightarrow>
     (isoformat t1 < isoformat t2) = (datetime_key t1 < datetime_key t2)"
  by (simp only: isoformat_less_fields datetime_key_less_fields)

subsection \<open>Parsing what \<^verbatim>\<open>isoformat\<close> wrote\<close>

lemma to_datetime_seconds:
  assumes "length a = 4" "length b = 2" "length c = 2" "length d = 2" "length e = 2"
    "length f = 2"
    and "digits_value 0 a = Some y" "digits_value 0 b = Some mo" "digits_value 0 c = Some dd"
    "digits_value 0 d = Some h" "digits_value 0 e = Some mi" "digits_value 0 f = Some se"
    and "valid_datetime \<lparr>year = y, month = mo, day = dd, hour = h, minute = mi, second = se,
      microsecond = 0\<rparr>"
  shows "to_datetime (a @ ''-'' @ b @ ''-'' @ c @ ''T'' @ d @ '':'' @ e @ '':'' @ f) =
     Some \<lparr>year = y, month = mo, day = dd, hour = h, minute = mi, second = se,
      microsecond = 0\<rparr>"
  using assms by (simp add: to_datetime_def slice_def Let_def)

lemma to_datetime_microseconds:
  assumes "length a = 4" "length b = 2" "length c = 2" "length d = 2" "length e = 2"
    "length f = 2" "length g = 6"
    and "digits_value 0 a = Some y" "digits_value 0 b = Some mo" "digits_value 0 c = Some dd"
    "digits_value 0 d = Some h" "digits_value 0 e = Some mi" "digits_value 0 f = Some se"
    "digits_value 0 g = Some us"
    and "valid_datetime \<lparr>year = y, month = mo, day = dd, hour = h, minute = mi, second = se,
      microsecond = us\<rparr>"
  shows "to_datetime (a @ ''-'' @ b @ ''-'' @ c @ ''T'' @ d @ '':'' @ e @ '':'' @ f @ ''.'' @ g) =
     Some \<lparr>year = y, month = mo, day = dd, hour = h, minute = mi, second = se,
      microsecond = us\<rparr>"
  using assms by (simp add: to_datetime_def slice_def Let_def)

lemma to_datetime_isoformat:
  assumes "valid_datetime t"
  shows "to_datetime (isoformat t) = Some t"
proof -
  note b = valid_datetime_bounds [OF assms]
  have dv: "digits_value 0 (zpad 4 (year t)) = Some (year t)"
    "digits_value 0 (zpad 2 (month t)) = Some (month t)"
    "digits_value 0 (zpad 2 (day t)) = Some (day t)"
    "digits_value 0 (zpad 2 (hour t)) = Some (hour t)"
    "digits_value 0 (zpad 2 (minute t)) = Some (minute t)"
    "digits_value 0 (zpad 2 (second t)) = Some (second t)"
    "digits_value 0 (zpad 6 (microsecond t)) = Some (microsecond t)"
    using b by (simp_all only: digits_value_zpad_small)
  show ?thesis
  proof (cases "microsecond t = 0")
    case True
    then have t: "\<lparr>year = year t, month = month t, day = day t, hour = hour t,
        minute = minute t, second = second t, microsecond = 0\<rparr> = t"
      by simp
    have "to_datetime (zpad 4 (year t) @ ''-'' @ zpad 2 (month t) @ ''-'' @ zpad 2 (day t) @
        ''T'' @ zpad 2 (hour t) @ '':'' @ zpad 2 (minute t) @ '':'' @ zpad 2 (second t)) =
      Some \<lparr>year = year t, month = month t, day = day t, hour = hour t,
        minute = minute t, second = second t, microsecond = 0\<rparr>"
      by (rule to_datetime_seconds) (simp_all add: length_zpad dv t assms)
    with True t show ?thesis
      by (simp add: isoformat_def)
  next
    case False
    have t: "\<lparr>year = year t, month = month t, day = day t, hour = hour t,
        minute = minute t, second = second t, microsecond = microsecond t\<rparr> = t"
      by simp
    have "to_datetime (zpad 4 (year t) @ ''-'' @ zpad 2 (month t) @ ''-'' @ zpad 2 (day t) @
        ''T'' @ zpad 2 (hour t) @ '':'' @ zpad 2 (minute t) @ '':'' @ zpad 2 (second t) @
        ''.'' @ zpad 6 (microsecond t)) =
      Some \<lparr>year = year t, month = month t, day = day t, hour = hour t,
        minute = minute t, second = second t, microsecond = microsecond t\<rparr>"
      by (rule to_datetime_microseconds) (simp_all add: length_zpad dv t assms)
    with False t show ?thesis
      by (simp add: isoformat_def)
  qed
qed

lemma iso_text_isoformat: "valid_datetime t \<Longrightarrow> iso_text (isoformat t)"
  by (simp add: iso_text_def to_datetime_isoformat)

lemma to_datetime_valid: "to_datetime s = Some t \<Longrightarrow> valid_datetime t"
  by (auto simp: to_datetime_def Let_def Option.bind_eq_Some_conv split: if_splits)

lemma iso_text_less:
  assumes "iso_text s1" and "iso_text s2"
  shows "(s1 < s2) = (datetime_key (the (to_datetime s1)) < datetime_key (the (to_datetime s2)))"
proof -
  from assms(1) obtain t1 where t1: "to_datetime s1 = Some t1" "isoformat t1 = s1"
    by (cases "to_datetime s1") (simp_all add: iso_text_def)
  from assms(2) obtain t2 where t2: "to_datetime s2 = Some t2" "isoformat t2 = s2"
    by (cases "to_datetime s2") (simp_all add: iso_text_def)
  have v: "valid_datetime t1" "valid_datetime t2"
    by (rule to_datetime_valid [OF t1(1)], rule to_datetime_valid [OF t2(1)])
  have "(s1 < s2) = (isoformat t1 < isoformat t2)"
    by (simp only: t1(2) t2(2))
  also have "\<dots> = (datetime_key t1 < datetime_key t2)"
    using v by (rule isoformat_less)
  finally show ?thesis
    by (simp only: t1(1) t2(1) option.sel)
qed

lemma iso_text_eq:
  assumes "iso_text s1" and "iso_text s2"
  shows "(s1 = s2) = (the (to_datetime s1) = the (to_datetime s2))"
proof -
  from assms(1) obtain t1 where t1: "to_datetime s1 = Some t1" "isoformat t1 = s1"
    by (cases "to_datetime s1") (simp_all add: iso_text_def)
  from assms(2) obtain t2 where t2: "to_datetime s2 = Some t2" "isoformat t2 = s2"
    by (cases "to_datetime s2") (simp_all add: iso_text_def)
  show ?thesis
  proof
    assume "s1 = s2"
    then show "the (to_datetime s1) = the (to_datetime s2)" by (simp only:)
  next
    assume "the (to_datetime s1) = the (to_datetime s2)"
    then have "t1 = t2" by (simp only: t1(1) t2(1) option.sel)
    then have "isoformat t1 = isoformat t2" by (simp only:)
    then show "s1 = s2" by (simp only: t1(2) t2(2))
  qed
qed

subsection \<open>The invariant holds in every reachable state\<close>

lemma db_ok_insert_or_ignore_product:
  assumes "db_ok d"
  shows "db_ok (insert_or_ignore_product nm pr d)"
proof (cases "\<not> (pr \<ge> 0) \<or> nm \<in> set (map p_name (products d))")
  case True
  with assms show ?thesis
    by (simp add: insert_or_ignore_product_def db_ok_def Let_def)
next
  case False
  have "new_rowid (map p_id (products d)) (products_seq d) \<notin> set (map p_id (products d))"
    by (rule new_rowid_fresh)
  with False assms show ?thesis
    by (auto simp: insert_or_ignore_product_def db_ok_def Let_def)
qed

lemma update_price_keeps:
  "map p_id (map (\<lambda>p. if p_id p = i then p\<lparr>p_price := pr\<rparr> else p) ps) = map p_id ps"
  "map p_name (map (\<lambda>p. if p_id p = i then p\<lparr>p_price := pr\<rparr> else p) ps) = map p_name ps"
  for ps :: "product list"
  by (induction ps) simp_all

lemma db_ok_update_price:
  assumes "db_ok d"
  shows "db_ok (snd (update_price pr i d))"
proof (cases "\<not> fits_int64 i \<or> (i \<in> set (map p_id (products d)) \<and> \<not> (pr \<ge> 0))")
  case True
  with assms show ?thesis by (auto simp: update_price_def)
next
  case False
  let ?ps = "map (\<lambda>p. if p_id p = i then p\<lparr>p_price := pr\<rparr> else p) (products d)"
  from False have u: "snd (update_price pr i d) = d\<lparr>products := ?ps\<rparr>"
    by (auto simp: update_price_def)
  have pr: "\<forall>p \<in> set ?ps. 0 \<le> p_price p"
    using assms False by (auto simp: db_ok_def)
  from assms pr show ?thesis
    unfolding u db_ok_def
    by (simp add: update_price_keeps del: map_map)
qed

lemma db_ok_insert_sale:
  assumes "db_ok d" and "iso_text txt"
  shows "db_ok (snd (insert_sale pid q txt d))"
proof (cases "fits_int64 pid \<and> fits_int64 q \<and> q > 0 \<and> pid \<in> set (map p_id (products d))")
  case False
  with assms(1) show ?thesis by (auto simp: insert_sale_def)
next
  case True
  have "new_rowid (map s_id (sales d)) (sales_seq d) \<notin> set (map s_id (sales d))"
    by (rule new_rowid_fresh)
  with True assms show ?thesis
    by (auto simp: insert_sale_def db_ok_def Let_def)
qed

lemma db_ok_reachable: "reachable a \<Longrightarrow> db_ok (database a)"
proof (induction rule: reachable.induct)
  case start
  then show ?case by (simp add: fresh_app_def empty_db_def db_ok_def)
next
  case (after_add_product a nm pr)
  then show ?case by (simp add: add_product_def db_ok_insert_or_ignore_product)
next
  case (after_update_product_price a i pr)
  from db_ok_update_price [OF after_update_product_price.IH, of pr i] show ?case
    by (auto simp: update_product_price_def split: prod.splits sum.splits)
next
  case (after_add_sale a t i q)
  from db_ok_insert_sale [OF after_add_sale.IH iso_text_isoformat [OF after_add_sale.hyps(2)]]
  show ?case by (simp add: add_sale_def Let_def)
next
  case (after_load_products a now)
  then show ?case by (simp add: load_products_def Let_def)
next
  case (after_load_sales a now)
  then show ?case by (simp add: load_sales_def Let_def)
qed

end
